theory Spec2Isabelle
  imports Main "HOL-Library.Multiset"
begin

section \<open>Blogicum: the views of the blog application\<close>

text \<open>
  A shallow embedding of \<^verbatim>\<open>blogicum/blog/views.py\<close>. The relational store is a record of
  tables (lists of rows); a view takes the store, the clock readings it makes and the
  request, and returns its response (or the exception it raises) together with the
  updated store.
\<close>

subsection \<open>Rows of the store\<close>

text \<open>
  Modelled from the spec: \<^verbatim>\<open>blog/models.py\<close> is not among the sources. The fields are
  those of section 3 of the specification: a post refers to its author, and optionally to
  a category and a location; a comment refers to its post and its author. Foreign keys
  hold the primary key of the row referred to; time stamps are integers.
\<close>

record user =
  user_id :: nat
  username :: string

record category =
  category_id :: nat
  slug :: string
  category_is_published :: bool

record post =
  post_id :: nat
  author :: nat
  title :: string
  text_of :: string
  pub_date :: int
  is_published :: bool
  category :: "nat option"
  location :: "nat option"

record comment =
  comment_id :: nat
  comment_post :: nat
  comment_author :: nat
  created_at :: int
  comment_text :: string

record db =
  users :: "user list"
  categories :: "category list"
  posts :: "post list"
  comments :: "comment list"

subsection \<open>Requests, responses and exceptions\<close>

datatype http_method = GET | POST

text \<open>
  \<^verbatim>\<open>request.GET.get('page')\<close> is a string or \<^verbatim>\<open>None\<close>; the paginator converts it with
  \<^verbatim>\<open>int\<close>. The parameter is kept as the outcome of that conversion: absent, not an
  integer, or the integer read.
\<close>

datatype page_param = NoPage | NotAnInteger | PageNumber int

text \<open>
  Modelled from the spec: \<^verbatim>\<open>blog/forms.py\<close> is not among the sources. A submitted post
  form that validates carries the values of the editable fields of a post (every field
  but the primary key and the author, which the views set themselves); a comment form that
  validates carries the text. \<open>None\<close> is a form that does not validate, which includes the
  unbound form built from an empty \<^verbatim>\<open>request.POST\<close>.
\<close>

record post_fields =
  f_title :: string
  f_text :: string
  f_pub_date :: int
  f_is_published :: bool
  f_category :: "nat option"
  f_location :: "nat option"

record request =
  req_user :: "user option"
  req_method :: http_method
  req_page :: page_param
  post_form :: "post_fields option"
  comment_form :: "string option"

datatype error =
    Http404
  | MultipleObjectsReturned
  | DoesNotExist
  | AttributeError
  | PageNotAnIntegerErr
  | EmptyPage
  | ZeroDivisionError

datatype target = IndexView | PostDetailView nat | ProfileView string | LoginView

record 'a page =
  object_list :: "'a list"
  number :: int
  paginator_object_list :: "'a list"
  paginator_num_pages :: int

type_synonym annotated_post = "post \<times> nat"

datatype view_context =
    PageCtx "annotated_post page"
  | DetailCtx post "comment list"
  | CategoryCtx category "annotated_post page"
  | ProfileCtx user "annotated_post page"
  | PostFormCtx "post option"
  | CommentFormCtx comment
  | CommentCtx comment

datatype response = Render string view_context | Redirect target

subsection \<open>The paginator\<close>

text \<open>
  \<^verbatim>\<open>django.core.paginator.Paginator\<close> with its defaults (\<^verbatim>\<open>orphans=0\<close>,
  \<^verbatim>\<open>allow_empty_first_page=True\<close>): \<^verbatim>\<open>num_pages\<close> is \<^verbatim>\<open>ceil(max(1, count) / per_page)\<close>,
  \<^verbatim>\<open>validate_number\<close> raises \<^verbatim>\<open>PageNotAnInteger\<close> or \<^verbatim>\<open>EmptyPage\<close>, and \<^verbatim>\<open>get_page\<close>
  answers the first with page 1 and the second with the last page.
\<close>

definition num_pages :: "'a list \<Rightarrow> nat \<Rightarrow> error + int" where
  "num_pages items per_page =
     (if per_page = 0 then Inl ZeroDivisionError
      else Inr (int ((max 1 (length items) + per_page - 1) div per_page)))"

definition validate_number :: "'a list \<Rightarrow> nat \<Rightarrow> page_param \<Rightarrow> error + int" where
  "validate_number items per_page prm =
     (case prm of
        NoPage \<Rightarrow> Inl PageNotAnIntegerErr
      | NotAnInteger \<Rightarrow> Inl PageNotAnIntegerErr
      | PageNumber n \<Rightarrow>
          if n < 1 then Inl EmptyPage
          else (case num_pages items per_page of
                  Inl e \<Rightarrow> Inl e
                | Inr np \<Rightarrow>
                    if n > np then (if n = 1 then Inr n else Inl EmptyPage)
                    else Inr n))"

definition page_of :: "'a list \<Rightarrow> nat \<Rightarrow> int \<Rightarrow> error + 'a page" where
  "page_of items per_page n =
     (case validate_number items per_page (PageNumber n) of
        Inl e \<Rightarrow> Inl e
      | Inr k \<Rightarrow>
          (case num_pages items per_page of
             Inl e \<Rightarrow> Inl e
           | Inr np \<Rightarrow>
               let bottom = nat (k - 1) * per_page;
                   top = (if bottom + per_page \<ge> length items then length items
                          else bottom + per_page)
               in Inr \<lparr>object_list = take (top - bottom) (drop bottom items),
                       number = k,
                       paginator_object_list = items,
                       paginator_num_pages = np\<rparr>))"

definition get_page :: "'a list \<Rightarrow> nat \<Rightarrow> page_param \<Rightarrow> error + 'a page" where
  "get_page items per_page prm =
     (case validate_number items per_page prm of
        Inr k \<Rightarrow> page_of items per_page k
      | Inl PageNotAnIntegerErr \<Rightarrow> page_of items per_page 1
      | Inl EmptyPage \<Rightarrow>
          (case num_pages items per_page of
             Inl e \<Rightarrow> Inl e
           | Inr np \<Rightarrow> page_of items per_page np)
      | Inl e \<Rightarrow> Inl e)"

definition get_paginator :: "request \<Rightarrow> 'a list \<Rightarrow> nat \<Rightarrow> error + 'a page" where
  "get_paginator request items num = get_page items num (req_page request)"

subsection \<open>Queries\<close>

text \<open>
  \<^verbatim>\<open>get_object_or_404\<close> runs \<^verbatim>\<open>get()\<close> on the rows that match: no row is \<^verbatim>\<open>Http404\<close>,
  one row is the result, several rows raise \<^verbatim>\<open>MultipleObjectsReturned\<close>.
\<close>

fun get_object_or_404 :: "'a list \<Rightarrow> error + 'a" where
  "get_object_or_404 [] = Inl Http404"
| "get_object_or_404 [x] = Inr x"
| "get_object_or_404 (x # y # zs) = Inl MultipleObjectsReturned"

text \<open>
  The lookup \<^verbatim>\<open>category__is_published=True\<close> joins the category table: a post without a
  category matches no row of it.
\<close>

definition category__is_published :: "db \<Rightarrow> post \<Rightarrow> bool" where
  "category__is_published d p =
     (case category p of
        None \<Rightarrow> False
      | Some cid \<Rightarrow>
          list_ex (\<lambda>c. category_id c = cid \<and> category_is_published c) (categories d))"

text \<open>
  The attribute access \<^verbatim>\<open>post.category.is_published\<close>: \<^verbatim>\<open>post.category\<close> is \<^verbatim>\<open>None\<close> for a
  post without a category, and reading an attribute of \<^verbatim>\<open>None\<close> raises; otherwise the
  category row is fetched by its primary key.
\<close>

definition post_category_is_published :: "db \<Rightarrow> post \<Rightarrow> error + bool" where
  "post_category_is_published d p =
     (case category p of
        None \<Rightarrow> Inl AttributeError
      | Some cid \<Rightarrow>
          (case filter (\<lambda>c. category_id c = cid) (categories d) of
             [] \<Rightarrow> Inl DoesNotExist
           | [c] \<Rightarrow> Inr (category_is_published c)
           | _ \<Rightarrow> Inl MultipleObjectsReturned))"

text \<open>\<^verbatim>\<open>Count('comments')\<close>: the number of comment rows that refer to the post.\<close>

definition comment_count :: "db \<Rightarrow> post \<Rightarrow> nat" where
  "comment_count d p = length (filter (\<lambda>c. comment_post c = post_id p) (comments d))"

text \<open>
  \<^verbatim>\<open>order_by('-pub_date')\<close>. The store leaves the order of rows with equal dates open;
  the model keeps them in the order of the input.
\<close>

definition order_by_pub_date_desc :: "annotated_post list \<Rightarrow> annotated_post list" where
  "order_by_pub_date_desc rows = sort_key (\<lambda>r. - pub_date (fst r)) rows"

definition get_annotated_posts :: "db \<Rightarrow> int \<Rightarrow> post list \<Rightarrow> bool \<Rightarrow> annotated_post list" where
  "get_annotated_posts d now post_objects show_all =
     (let posts' =
            (if \<not> show_all
             then filter (\<lambda>p. pub_date p \<le> now \<and> is_published p \<and> category__is_published d p)
                    post_objects
             else post_objects)
      in order_by_pub_date_desc (map (\<lambda>p. (p, comment_count d p)) posts'))"

subsection \<open>Views that read\<close>

definition index :: "db \<Rightarrow> int \<Rightarrow> request \<Rightarrow> error + response" where
  "index d now request =
     (let post_list = get_annotated_posts d now (posts d) False
      in case get_paginator request post_list 10 of
           Inl e \<Rightarrow> Inl e
         | Inr page_obj \<Rightarrow> Inr (Render ''blog/index.html'' (PageCtx page_obj)))"

definition detail_page :: "db \<Rightarrow> post \<Rightarrow> response" where
  "detail_page d p =
     (let comments' = sort_key created_at (filter (\<lambda>c. comment_post c = post_id p) (comments d))
      in Render ''blog/detail.html'' (DetailCtx p comments'))"

text \<open>
  \<open>now\<close> is the reading of the clock in the first test of the publication state (or in the
  query of an anonymous viewer), \<open>now'\<close> the later reading in the second query of an
  authenticated viewer.
\<close>

definition post_detail :: "db \<Rightarrow> int \<Rightarrow> int \<Rightarrow> request \<Rightarrow> nat \<Rightarrow> error + response" where
  "post_detail d now now' request pid =
     (case req_user request of
        Some u \<Rightarrow>
          (case get_object_or_404 (filter (\<lambda>p. post_id p = pid) (posts d)) of
             Inl e \<Rightarrow> Inl e
           | Inr p \<Rightarrow>
               if author p \<noteq> user_id u then
                 (case (if \<not> is_published p then Inr False
                        else if \<not> pub_date p \<le> now then Inr False
                        else post_category_is_published d p) of
                    Inl e \<Rightarrow> Inl e
                  | Inr True \<Rightarrow> Inr (detail_page d p)
                  | Inr False \<Rightarrow>
                      (case get_object_or_404
                              (filter (\<lambda>q. post_id q = pid \<and> is_published q \<and> pub_date q \<le> now'
                                         \<and> category__is_published d q) (posts d)) of
                         Inl e \<Rightarrow> Inl e
                       | Inr p' \<Rightarrow> Inr (detail_page d p')))
               else Inr (detail_page d p))
      | None \<Rightarrow>
          (case get_object_or_404
                  (filter (\<lambda>q. (is_published q \<and> pub_date q \<le> now \<and> category__is_published d q)
                             \<and> post_id q = pid) (posts d)) of
             Inl e \<Rightarrow> Inl e
           | Inr p \<Rightarrow> Inr (detail_page d p)))"


definition profile :: "db \<Rightarrow> int \<Rightarrow> request \<Rightarrow> string \<Rightarrow> error + response" where
  "profile d now request uname =
     (case get_object_or_404 (filter (\<lambda>u. username u = uname) (users d)) of
        Inl e \<Rightarrow> Inl e
      | Inr usr \<Rightarrow>
          (let show_all =
                 (case req_user request of
                    None \<Rightarrow> False
                  | Some u \<Rightarrow> user_id u = user_id usr);
               posts_list =
                 get_annotated_posts d now (filter (\<lambda>p. author p = user_id usr) (posts d)) show_all
           in case get_paginator request posts_list 10 of
                Inl e \<Rightarrow> Inl e
              | Inr page_obj \<Rightarrow> Inr (Render ''blog/profile.html'' (ProfileCtx usr page_obj))))"

subsection \<open>Views that write\<close>

text \<open>
  The primary key of a new row is one more than the largest key of the table. Every view
  below is wrapped in \<^verbatim>\<open>login_required\<close>: an anonymous request is redirected to the login
  page before the view runs.
\<close>

definition next_id :: "nat list \<Rightarrow> nat" where
  "next_id ids = Suc (fold max ids 0)"

definition new_post :: "nat \<Rightarrow> nat \<Rightarrow> post_fields \<Rightarrow> post" where
  "new_post i a f =
     \<lparr>post_id = i, author = a, title = f_title f, text_of = f_text f,
      pub_date = f_pub_date f, is_published = f_is_published f,
      category = f_category f, location = f_location f\<rparr>"

definition apply_post_fields :: "post_fields \<Rightarrow> post \<Rightarrow> post" where
  "apply_post_fields f p = new_post (post_id p) (author p) f"

definition create_post :: "db \<Rightarrow> request \<Rightarrow> (error + response) \<times> db" where
  "create_post d request =
     (case req_user request of
        None \<Rightarrow> (Inr (Redirect LoginView), d)
      | Some u \<Rightarrow>
          if req_method request = POST then
            (case post_form request of
               Some f \<Rightarrow>
                 (let p = new_post (next_id (map post_id (posts d))) (user_id u) f
                  in (Inr (Redirect (ProfileView (username u))), d\<lparr>posts := posts d @ [p]\<rparr>))
             | None \<Rightarrow> (Inr (Render ''blog/create.html'' (PostFormCtx None)), d))
          else (Inr (Render ''blog/create.html'' (PostFormCtx None)), d))"

text \<open>Deleting a post removes the comments that refer to it (section 3 of the specification).\<close>

definition delete_post :: "db \<Rightarrow> request \<Rightarrow> nat \<Rightarrow> (error + response) \<times> db" where
  "delete_post d request pid =
     (case req_user request of
        None \<Rightarrow> (Inr (Redirect LoginView), d)
      | Some u \<Rightarrow>
          (case get_object_or_404 (filter (\<lambda>p. post_id p = pid) (posts d)) of
             Inl e \<Rightarrow> (Inl e, d)
           | Inr p \<Rightarrow>
               if user_id u \<noteq> author p then (Inr (Redirect (PostDetailView pid)), d)
               else if req_method request = POST then
                 (Inr (Redirect IndexView),
                  d\<lparr>posts := filter (\<lambda>q. post_id q \<noteq> post_id p) (posts d),
                    comments := filter (\<lambda>c. comment_post c \<noteq> post_id p) (comments d)\<rparr>)
               else (Inr (Render ''blog/create.html'' (PostFormCtx (Some p))), d)))"

definition edit_post :: "db \<Rightarrow> request \<Rightarrow> nat \<Rightarrow> (error + response) \<times> db" where
  "edit_post d request pid =
     (case req_user request of
        None \<Rightarrow> (Inr (Redirect LoginView), d)
      | Some u \<Rightarrow>
          (case get_object_or_404 (filter (\<lambda>p. post_id p = pid) (posts d)) of
             Inl e \<Rightarrow> (Inl e, d)
           | Inr p \<Rightarrow>
               if user_id u \<noteq> author p then (Inr (Redirect (PostDetailView pid)), d)
               else if req_method request = POST then
                 (case post_form request of
                    Some f \<Rightarrow>
                      (Inr (Redirect (PostDetailView pid)),
                       d\<lparr>posts := map (\<lambda>q. if post_id q = post_id p
                                             then apply_post_fields f p else q) (posts d)\<rparr>)
                  | None \<Rightarrow> (Inr (Render ''blog/create.html'' (PostFormCtx (Some p))), d))
               else (Inr (Render ''blog/create.html'' (PostFormCtx (Some p))), d)))"

definition add_comment :: "db \<Rightarrow> int \<Rightarrow> request \<Rightarrow> nat \<Rightarrow> (error + response) \<times> db" where
  "add_comment d now request pid =
     (case req_user request of
        None \<Rightarrow> (Inr (Redirect LoginView), d)
      | Some u \<Rightarrow>
          (case get_object_or_404 (filter (\<lambda>p. post_id p = pid) (posts d)) of
             Inl e \<Rightarrow> (Inl e, d)
           | Inr p \<Rightarrow>
               (let d' =
                      (case comment_form request of
                         Some txt \<Rightarrow>
                           d\<lparr>comments := comments d @
                               [\<lparr>comment_id = next_id (map comment_id (comments d)),
                                 comment_post = post_id p,
                                 comment_author = user_id u,
                                 created_at = now,
                                 comment_text = txt\<rparr>]\<rparr>
                       | None \<Rightarrow> d)
                in (Inr (Redirect (PostDetailView pid)), d'))))"

definition edit_comment :: "db \<Rightarrow> request \<Rightarrow> nat \<Rightarrow> nat \<Rightarrow> (error + response) \<times> db" where
  "edit_comment d request pid cid =
     (case req_user request of
        None \<Rightarrow> (Inr (Redirect LoginView), d)
      | Some u \<Rightarrow>
          (case get_object_or_404 (filter (\<lambda>c. comment_id c = cid) (comments d)) of
             Inl e \<Rightarrow> (Inl e, d)
           | Inr cmt \<Rightarrow>
               if user_id u \<noteq> comment_author cmt then (Inr (Redirect (PostDetailView pid)), d)
               else if req_method request = POST then
                 (case comment_form request of
                    Some txt \<Rightarrow>
                      (Inr (Redirect (PostDetailView pid)),
                       d\<lparr>comments := map (\<lambda>c. if comment_id c = comment_id cmt
                                                then cmt\<lparr>comment_text := txt\<rparr> else c)
                                         (comments d)\<rparr>)
                  | None \<Rightarrow> (Inr (Render ''blog/comment.html'' (CommentFormCtx cmt)), d))
               else (Inr (Render ''blog/comment.html'' (CommentFormCtx cmt)), d)))"

definition delete_comment :: "db \<Rightarrow> request \<Rightarrow> nat \<Rightarrow> nat \<Rightarrow> (error + response) \<times> db" where
  "delete_comment d request pid cid =
     (case req_user request of
        None \<Rightarrow> (Inr (Redirect LoginView), d)
      | Some u \<Rightarrow>
          (case get_object_or_404 (filter (\<lambda>c. comment_id c = cid) (comments d)) of
             Inl e \<Rightarrow> (Inl e, d)
           | Inr cmt \<Rightarrow>
               if user_id u \<noteq> comment_author cmt then (Inr (Redirect (PostDetailView pid)), d)
               else if req_method request = POST then
                 (Inr (Redirect (PostDetailView pid)),
                  d\<lparr>comments := filter (\<lambda>c. comment_id c \<noteq> comment_id cmt) (comments d)\<rparr>)
               else (Inr (Render ''blog/comment.html'' (CommentCtx cmt)), d)))"

subsection \<open>Sample data\<close>

text \<open>
  Requests and a small store for the examples: two users, a published and an unpublished
  category, and three posts of the first user (an unpublished one, a public one with one
  comment, and a published one without a category).
\<close>

definition get_request :: "user option \<Rightarrow> page_param \<Rightarrow> request" where
  "get_request u prm =
     \<lparr>req_user = u, req_method = GET, req_page = prm, post_form = None, comment_form = None\<rparr>"

definition post_request :: "user option \<Rightarrow> post_fields option \<Rightarrow> string option \<Rightarrow> request" where
  "post_request u pf cf =
     \<lparr>req_user = u, req_method = POST, req_page = NoPage, post_form = pf, comment_form = cf\<rparr>"

definition alice :: user where "alice = \<lparr>user_id = 1, username = ''alice''\<rparr>"

definition bob :: user where "bob = \<lparr>user_id = 2, username = ''bob''\<rparr>"

definition sample_post :: "nat \<Rightarrow> int \<Rightarrow> bool \<Rightarrow> nat option \<Rightarrow> post" where
  "sample_post i t pub c =
     \<lparr>post_id = i, author = 1, title = ''t'', text_of = ''x'', pub_date = t,
      is_published = pub, category = c, location = None\<rparr>"

definition sample_fields :: post_fields where
  "sample_fields =
     \<lparr>f_title = ''draft'', f_text = ''later'', f_pub_date = 1000, f_is_published = False,
      f_category = Some 1, f_location = None\<rparr>"

definition sample_db :: db where
  "sample_db =
     \<lparr>users = [alice, bob],
      categories = [\<lparr>category_id = 1, slug = ''news'', category_is_published = True\<rparr>,
                    \<lparr>category_id = 2, slug = ''drafts'', category_is_published = False\<rparr>],
      posts = [sample_post 5 100 False (Some 1), sample_post 6 50 True (Some 1),
               sample_post 7 10 True None],
      comments = [\<lparr>comment_id = 1, comment_post = 6, comment_author = 2, created_at = 60,
                    comment_text = ''hi''\<rparr>]\<rparr>"

text \<open>
  A run of add-comment requests on one post, each with the clock reading of its request.
\<close>

fun add_comments :: "db \<Rightarrow> (int \<times> request) list \<Rightarrow> nat \<Rightarrow> db" where
  "add_comments d [] pid = d"
| "add_comments d ((now, r) # rs) pid = add_comments (snd (add_comment d now r pid)) rs pid"

definition two_comments :: "(int \<times> request) list" where
  "two_comments =
     [(300, post_request (Some bob) None (Some ''first'')),
      (301, post_request (Some alice) None (Some ''second''))]"

section \<open>Properties\<close>

lemmas sample_simps = sample_db_def sample_post_def alice_def bob_def get_request_def
  post_request_def sample_fields_def

subsection \<open>Lookups and fresh keys\<close>

lemma get_object_or_404_Inr: "get_object_or_404 xs = Inr x \<longleftrightarrow> xs = [x]"
  by (cases xs rule: get_object_or_404.cases) auto

lemma get_object_or_404_Nil: "get_object_or_404 xs = Inl Http404 \<longleftrightarrow> xs = []"
  by (cases xs rule: get_object_or_404.cases) auto

lemma fold_max_ge_init: "a \<le> fold max ids (a::nat)"
proof (induction ids arbitrary: a)
  case Nil
  show ?case by simp
next
  case (Cons y ys)
  have "a \<le> max y a" by simp
  also have "\<dots> \<le> fold max ys (max y a)" by (rule Cons.IH)
  finally show ?case by simp
qed

lemma fold_max_ge_elem: "x \<in> set ids \<Longrightarrow> x \<le> fold max ids (a::nat)"
proof (induction ids arbitrary: a)
  case Nil
  then show ?case by simp
next
  case (Cons y ys)
  show ?case
  proof (cases "x = y")
    case True
    have "x \<le> max y a" using True by simp
    also have "\<dots> \<le> fold max ys (max y a)" by (rule fold_max_ge_init)
    finally show ?thesis by simp
  next
    case False
    with Cons.prems have "x \<in> set ys" by simp
    then show ?thesis using Cons.IH by simp
  qed
qed

lemma next_id_fresh: "next_id ids \<notin> set ids"
  using fold_max_ge_elem [of "next_id ids" ids 0] by (auto simp: next_id_def)

subsection \<open>Pagination\<close>

lemma num_pages_pos: "0 < num \<Longrightarrow> \<exists>np. num_pages items num = Inr np \<and> 1 \<le> np"
  apply (simp add: num_pages_def)
  by (metis div_greater_zero_iff le_add2 less_eq_Suc_le max.cobounded1
      ordered_cancel_comm_monoid_diff_class.add_diff_assoc2)

lemma page_of_valid:
  assumes "num_pages items num = Inr np" "1 \<le> k" "k \<le> np"
  shows "page_of items num k =
           Inr \<lparr>object_list = take num (drop (nat (k - 1) * num) items), number = k,
                paginator_object_list = items, paginator_num_pages = np\<rparr>"
  using assms by (auto simp: page_of_def validate_number_def Let_def)

lemma get_paginator_result:
  assumes "0 < num"
  shows "\<exists>np pg. num_pages items num = Inr np \<and> 1 \<le> np
           \<and> get_paginator request items num = Inr pg
           \<and> number pg = (case req_page request of
                            PageNumber n \<Rightarrow> if 1 \<le> n \<and> n \<le> np then n else np
                          | _ \<Rightarrow> 1)
           \<and> object_list pg = take num (drop (nat (number pg - 1) * num) items)
           \<and> paginator_object_list pg = items"
proof -
  from assms obtain np where np: "num_pages items num = Inr np" "1 \<le> np"
    using num_pages_pos by blast
  note po = page_of_valid [OF np(1)]
  show ?thesis
  proof (cases "req_page request")
    case NoPage
    then show ?thesis using np po [of 1]
      by (simp add: get_paginator_def get_page_def validate_number_def)
  next
    case NotAnInteger
    then show ?thesis using np po [of 1]
      by (simp add: get_paginator_def get_page_def validate_number_def)
  next
    case (PageNumber n)
    show ?thesis
    proof (cases "1 \<le> n \<and> n \<le> np")
      case True
      then show ?thesis using np PageNumber po [of n]
        by (simp add: get_paginator_def get_page_def validate_number_def)
    next
      case False
      then show ?thesis using np PageNumber po [of np]
        by (auto simp: get_paginator_def get_page_def validate_number_def)
    qed
  qed
qed

lemma get_paginator_total:
  assumes "0 < num"
  shows "\<exists>pg. get_paginator request items num = Inr pg
           \<and> paginator_object_list pg = items
           \<and> object_list pg = take num (drop (nat (number pg - 1) * num) items)"
  using get_paginator_result [OF assms, of items request] by blast

subsection \<open>The annotated list of posts\<close>

lemma mset_get_annotated_posts:
  "mset (get_annotated_posts d now ps show_all) =
     mset (map (\<lambda>p. (p, comment_count d p))
            (filter (\<lambda>p. show_all \<or> (pub_date p \<le> now \<and> is_published p
                                        \<and> category__is_published d p)) ps))"
  by (simp add: get_annotated_posts_def order_by_pub_date_desc_def)
lemma category__is_published_iff:
  "category__is_published d p \<longleftrightarrow>
     (\<exists>c \<in> set (categories d). category p = Some (category_id c) \<and> category_is_published c)"
  by (auto simp: category__is_published_def list_ex_iff split: option.splits)
lemma get_annotated_posts_entries:
  "a \<in> set (get_annotated_posts d now ps show_all) \<Longrightarrow> snd a = comment_count d (fst a)"
proof -
  assume "a \<in> set (get_annotated_posts d now ps show_all)"
  then have "a \<in># mset (get_annotated_posts d now ps show_all)" by simp
  then show ?thesis unfolding mset_get_annotated_posts by auto
qed
text \<open>
  C2: with \<open>show_all\<close> false, \<open>get_annotated_posts\<close> returns exactly the posts of its input
  with \<open>is_published\<close>, \<open>pub_date \<le> now\<close> and a published category, each paired with the
  number of its comments; with \<open>show_all\<close> true it returns every post of the input so
  paired; in both cases the result is ordered by \<open>pub_date\<close> descending, and an empty input
  gives an empty result.
\<close>

theorem get_annotated_posts_filtered_sorted:
  "mset (get_annotated_posts d now ps False) =
     mset (map (\<lambda>p. (p, length (filter (\<lambda>c. comment_post c = post_id p) (comments d))))
            (filter (\<lambda>p. is_published p \<and> pub_date p \<le> now
                       \<and> (\<exists>c \<in> set (categories d).
                             category p = Some (category_id c) \<and> category_is_published c)) ps))
   \<and> mset (get_annotated_posts d now ps True) =
     mset (map (\<lambda>p. (p, length (filter (\<lambda>c. comment_post c = post_id p) (comments d)))) ps)
   \<and> sorted_wrt (\<lambda>a b. pub_date (fst a) \<ge> pub_date (fst b)) (get_annotated_posts d now ps show_all)
   \<and> get_annotated_posts d now [] show_all = []"
proof -
  have flt: "(\<lambda>p. pub_date p \<le> now \<and> is_published p \<and> category__is_published d p) =
        (\<lambda>p. is_published p \<and> pub_date p \<le> now
                       \<and> (\<exists>c \<in> set (categories d).
                             category p = Some (category_id c) \<and> category_is_published c))"
    by (auto simp: category__is_published_iff)
  have cnt: "comment_count d = (\<lambda>p. length (filter (\<lambda>c. comment_post c = post_id p) (comments d)))"
    by (simp add: comment_count_def fun_eq_iff)
  have srt: "sorted_wrt (\<lambda>a b. pub_date (fst a) \<ge> pub_date (fst b)) (order_by_pub_date_desc rows)" for rows
  proof -
    have "sorted (map (\<lambda>r. - pub_date (fst r)) (order_by_pub_date_desc rows))"
      unfolding order_by_pub_date_desc_def by (rule sorted_sort_key)
    then show ?thesis by (simp add: sorted_wrt_map)
  qed
  have "mset (get_annotated_posts d now ps False) = mset (map (\<lambda>p. (p, comment_count d p))
      (filter (\<lambda>p. pub_date p \<le> now \<and> is_published p \<and> category__is_published d p) ps))"
    by (simp add: get_annotated_posts_def order_by_pub_date_desc_def)
  moreover have "mset (get_annotated_posts d now ps True) = mset (map (\<lambda>p. (p, comment_count d p)) ps)"
    by (simp add: get_annotated_posts_def order_by_pub_date_desc_def)
  moreover have "sorted_wrt (\<lambda>a b. pub_date (fst a) \<ge> pub_date (fst b)) (get_annotated_posts d now ps show_all)"
    by (simp add: get_annotated_posts_def Let_def srt)
  moreover have "get_annotated_posts d now [] show_all = []"
    by (simp add: get_annotated_posts_def order_by_pub_date_desc_def)
  ultimately show ?thesis unfolding flt cnt by blast
qed
subsection \<open>The detail page of a post\<close>

text \<open>
  What \<open>post_detail\<close> returns for a post that exists, whose category, if it has one, is a
  row of the category table, when the clock does not advance during the request: the page
  for the author and for a publicly visible post; \<open>AttributeError\<close> for an authenticated
  viewer who is not the author when the post is published, not dated in the future, and
  has no category; \<open>Http404\<close> otherwise.
\<close>

lemma post_detail_cases:
  assumes ex: "get_object_or_404 (filter (\<lambda>q. post_id q = pid) (posts d)) = Inr p"
    and fk: "\<And>cid. category p = Some cid \<Longrightarrow>
               \<exists>c. filter (\<lambda>c. category_id c = cid) (categories d) = [c]"
  shows "post_detail d now now request pid =
     (if (\<exists>u. req_user request = Some u \<and> user_id u = author p)
         \<or> (is_published p \<and> pub_date p \<le> now \<and> category__is_published d p)
      then Inr (detail_page d p)
      else if req_user request \<noteq> None \<and> category p = None \<and> is_published p \<and> pub_date p \<le> now
      then Inl AttributeError
      else Inl Http404)"
proof -
  from ex have one: "filter (\<lambda>q. post_id q = pid) (posts d) = [p]"
    by (simp add: get_object_or_404_Inr)
  have "p \<in> set (filter (\<lambda>q. post_id q = pid) (posts d))"
    unfolding one by simp
  then have pid: "post_id p = pid" by simp
  let ?vis = "\<lambda>q. is_published q \<and> pub_date q \<le> now \<and> category__is_published d q"
  have f1: "filter (\<lambda>q. post_id q = pid \<and> is_published q \<and> pub_date q \<le> now
                        \<and> category__is_published d q) (posts d) = filter ?vis [p]"
    using one by (metis (mono_tags, lifting) filter_filter filter_cong)
  have f2: "filter (\<lambda>q. (is_published q \<and> pub_date q \<le> now \<and> category__is_published d q)
                        \<and> post_id q = pid) (posts d) = filter ?vis [p]"
    using one by (metis (mono_tags, lifting) filter_filter filter_cong)
  have attr: "post_category_is_published d p =
        (if category p = None then Inl AttributeError else Inr (category__is_published d p))"
  proof (cases "category p")
    case None
    then show ?thesis by (simp add: post_category_is_published_def)
  next
    case (Some cid)
    with fk obtain c where c: "filter (\<lambda>c. category_id c = cid) (categories d) = [c]" by blast
    have "list_ex (\<lambda>c. category_id c = cid \<and> category_is_published c) (categories d)
          = list_ex category_is_published (filter (\<lambda>c. category_id c = cid) (categories d))"
      by (auto simp: list_ex_iff)
    then show ?thesis using Some c
      by (simp add: post_category_is_published_def category__is_published_def)
  qed
  have nocat: "category p = None \<Longrightarrow> \<not> category__is_published d p"
    by (simp add: category__is_published_def)
  show ?thesis
  proof (cases "req_user request")
    case None
    then show ?thesis unfolding post_detail_def f2 by simp
  next
    case (Some u)
    then show ?thesis unfolding post_detail_def f1 using one attr nocat
      by (auto simp: split: bool.splits)
  qed
qed
text \<open>
  C1 fails on the code for a post without a category: for an authenticated viewer who is
  not the author, a published post dated in the past with no category is not publicly
  visible, and the view raises \<open>AttributeError\<close> (a server error) where the claim says
  \<open>Http404\<close>. The anonymous branch of the same view answers \<open>Http404\<close> for the same post.
\<close>

theorem post_detail_no_category_raises:
  "post_detail sample_db 200 200 (get_request (Some bob) NoPage) 7 = Inl AttributeError
   \<and> post_detail sample_db 200 200 (get_request None NoPage) 7 = Inl Http404"
  by (simp add: post_detail_def sample_simps post_category_is_published_def
      category__is_published_def)
subsection \<open>Editing and deleting a post\<close>

text \<open>
  C3: for an authenticated user who is not the author of an existing post, \<open>edit_post\<close> and
  \<open>delete_post\<close> redirect to the detail view of that post, whatever the method and the
  form, and return the store unchanged.
\<close>

theorem non_author_edit_delete_redirects:
  assumes "req_user request = Some u"
    and "get_object_or_404 (filter (\<lambda>p. post_id p = pid) (posts d)) = Inr p"
    and "user_id u \<noteq> author p"
  shows "edit_post d request pid = (Inr (Redirect (PostDetailView pid)), d)
       \<and> delete_post d request pid = (Inr (Redirect (PostDetailView pid)), d)"
  using assms by (simp add: edit_post_def delete_post_def)
theorem non_author_edit_delete_redirects_witness:
  "req_user (post_request (Some bob) (Some sample_fields) None) = Some bob
   \<and> get_object_or_404 (filter (\<lambda>p. post_id p = 6) (posts sample_db)) =
       Inr (sample_post 6 50 True (Some 1))
   \<and> user_id bob \<noteq> author (sample_post 6 50 True (Some 1))
   \<and> edit_post sample_db (post_request (Some bob) (Some sample_fields) None) 6 =
       (Inr (Redirect (PostDetailView 6)), sample_db)
   \<and> delete_post sample_db (post_request (Some bob) (Some sample_fields) None) 6 =
       (Inr (Redirect (PostDetailView 6)), sample_db)"
proof -
  have h1: "req_user (post_request (Some bob) (Some sample_fields) None) = Some bob"
    by (simp add: post_request_def)
  have h2: "get_object_or_404 (filter (\<lambda>p. post_id p = 6) (posts sample_db)) =
       Inr (sample_post 6 50 True (Some 1))"
    by (simp add: sample_simps)
  have h3: "user_id bob \<noteq> author (sample_post 6 50 True (Some 1))"
    by (simp add: sample_simps)
  from non_author_edit_delete_redirects [OF h1 h2 h3] h1 h2 h3 show ?thesis by blast
qed
subsection \<open>Pagination of the listings\<close>

text \<open>
  C4, as stated, fails: a page number below 1 is out of range, its nearest valid page is
  the first, and the paginator answers with the last. With 25 items and ten to a page,
  \<^verbatim>\<open>?page=0\<close> shows page 3 (items 21 to 25), while the nearest valid page of 0 is page 1.
\<close>

theorem get_paginator_page_zero_is_last:
  "get_paginator (get_request None (PageNumber 0)) [1..<26::nat] 10 =
     Inr \<lparr>object_list = [21, 22, 23, 24, 25], number = 3,
          paginator_object_list = [1..<26], paginator_num_pages = 3\<rparr>
   \<and> max 1 (min 3 0) = (1::int)"
  by (simp add: get_paginator_def get_request_def get_page_def validate_number_def
      num_pages_def page_of_def Let_def upt_rec)

text \<open>
  C4, amended: for every list of items, every page parameter and every positive page size
  (the views use 10), \<open>get_paginator\<close> raises nothing and returns a page whose items are the
  slice of its 1-based number; the number is the one asked for when it lies between 1 and
  the number of pages, 1 when the parameter is absent or not an integer, and the last page
  for every integer out of range, below 1 as well as above the last page. For 25 items
  this gives 10 items on page 1, 5 items on page 3, and page 3 for page 4 (see the witness).
\<close>

theorem get_paginator_last_page_fallback:
  assumes "0 < num"
  shows "\<exists>np pg. num_pages items num = Inr np \<and> 1 \<le> np
           \<and> get_paginator request items num = Inr pg
           \<and> number pg = (case req_page request of
                            PageNumber n \<Rightarrow> if 1 \<le> n \<and> n \<le> np then n else np
                          | _ \<Rightarrow> 1)
           \<and> object_list pg = take num (drop (nat (number pg - 1) * num) items)
           \<and> paginator_object_list pg = items"
  using get_paginator_result [OF assms, of items request] .

theorem get_paginator_last_page_fallback_witness:
  "(0::nat) < 10
   \<and> (\<exists>p1 p3 p4.
        get_paginator (get_request None (PageNumber 1)) [1..<26::nat] 10 = Inr p1
      \<and> number p1 = 1 \<and> length (object_list p1) = 10
      \<and> get_paginator (get_request None (PageNumber 3)) [1..<26::nat] 10 = Inr p3
      \<and> number p3 = 3 \<and> object_list p3 = [21, 22, 23, 24, 25]
      \<and> get_paginator (get_request None (PageNumber 4)) [1..<26::nat] 10 = Inr p4
      \<and> number p4 = 3 \<and> object_list p4 = [21, 22, 23, 24, 25])"
proof -
  let ?items = "[1..<26::nat]"
  have h: "(0::nat) < 10" by simp
  have np: "num_pages ?items 10 = Inr 3" by (simp add: num_pages_def)
  have sel: "req_page (get_request None prm) = prm" for prm
    by (simp add: get_request_def)
  from get_paginator_last_page_fallback [OF h, of ?items "get_request None (PageNumber 1)"]
  obtain p1 where p1: "get_paginator (get_request None (PageNumber 1)) ?items 10 = Inr p1"
      "number p1 = 1" "object_list p1 = take 10 (drop (nat (number p1 - 1) * 10) ?items)"
    unfolding np sel by auto
  from get_paginator_last_page_fallback [OF h, of ?items "get_request None (PageNumber 3)"]
  obtain p3 where p3: "get_paginator (get_request None (PageNumber 3)) ?items 10 = Inr p3"
      "number p3 = 3" "object_list p3 = take 10 (drop (nat (number p3 - 1) * 10) ?items)"
    unfolding np sel by auto
  from get_paginator_last_page_fallback [OF h, of ?items "get_request None (PageNumber 4)"]
  obtain p4 where p4: "get_paginator (get_request None (PageNumber 4)) ?items 10 = Inr p4"
      "number p4 = 3" "object_list p4 = take 10 (drop (nat (number p4 - 1) * 10) ?items)"
    unfolding np sel by auto
  have "length (object_list p1) = 10" using p1 by simp
  moreover have "object_list p3 = [21, 22, 23, 24, 25]" using p3 by (simp add: upt_rec)
  moreover have "object_list p4 = [21, 22, 23, 24, 25]" using p4 by (simp add: upt_rec)
  ultimately show ?thesis using h p1(1,2) p3(1,2) p4(1,2) by blast
qed
subsection \<open>The profile page\<close>

text \<open>
  C5: the listing of a profile holds the posts of the profile's user that are publicly
  visible, and the others as well exactly when the viewer is authenticated and is that
  user; the page shown is a slice of that listing.
\<close>

theorem profile_shows_all_to_owner_only:
  assumes "get_object_or_404 (filter (\<lambda>u. username u = uname) (users d)) = Inr usr"
  shows "\<exists>pg. profile d now request uname = Inr (Render ''blog/profile.html'' (ProfileCtx usr pg))
     \<and> mset (paginator_object_list pg) =
         mset (map (\<lambda>p. (p, comment_count d p))
                (filter (\<lambda>p. author p = user_id usr
                           \<and> ((\<exists>u. req_user request = Some u \<and> user_id u = user_id usr)
                              \<or> (is_published p \<and> pub_date p \<le> now
                                  \<and> category__is_published d p))) (posts d)))
     \<and> object_list pg = take 10 (drop (nat (number pg - 1) * 10) (paginator_object_list pg))"
proof -
  let ?own = "case req_user request of None \<Rightarrow> False | Some u \<Rightarrow> user_id u = user_id usr"
  let ?lst = "get_annotated_posts d now (filter (\<lambda>p. author p = user_id usr) (posts d)) ?own"
  obtain pg where pg: "get_paginator request ?lst 10 = Inr pg" "paginator_object_list pg = ?lst"
      "object_list pg = take 10 (drop (nat (number pg - 1) * 10) ?lst)"
    using get_paginator_total [of 10 request ?lst] by auto
  have own: "?own \<longleftrightarrow> (\<exists>u. req_user request = Some u \<and> user_id u = user_id usr)"
    by (cases "req_user request") auto
  have "profile d now request uname = Inr (Render ''blog/profile.html'' (ProfileCtx usr pg))"
    using assms pg(1) by (simp add: profile_def Let_def)
  moreover have "mset ?lst = mset (map (\<lambda>p. (p, comment_count d p))
                (filter (\<lambda>p. author p = user_id usr
                           \<and> ((\<exists>u. req_user request = Some u \<and> user_id u = user_id usr)
                              \<or> (is_published p \<and> pub_date p \<le> now
                                  \<and> category__is_published d p))) (posts d)))"
  proof -
    have "filter (\<lambda>p. (\<exists>u. req_user request = Some u \<and> user_id u = user_id usr)
                        \<or> (pub_date p \<le> now \<and> is_published p \<and> category__is_published d p))
            (filter (\<lambda>p. author p = user_id usr) (posts d)) =
          filter (\<lambda>p. author p = user_id usr
                           \<and> ((\<exists>u. req_user request = Some u \<and> user_id u = user_id usr)
                              \<or> (is_published p \<and> pub_date p \<le> now
                                  \<and> category__is_published d p))) (posts d)"
      unfolding filter_filter by (rule filter_cong) auto
    then show ?thesis unfolding mset_get_annotated_posts own by simp
  qed
  ultimately show ?thesis using pg(2,3) by auto
qed
theorem profile_shows_all_to_owner_only_witness:
  "get_object_or_404 (filter (\<lambda>u. username u = ''alice'') (users sample_db)) = Inr alice
   \<and> (\<exists>pg. profile sample_db 200 (get_request (Some alice) NoPage) ''alice'' =
             Inr (Render ''blog/profile.html'' (ProfileCtx alice pg))
        \<and> mset (paginator_object_list pg) =
            {#(sample_post 5 100 False (Some 1), 0), (sample_post 6 50 True (Some 1), 1),
              (sample_post 7 10 True None, 0)#})
   \<and> (\<exists>pg. profile sample_db 200 (get_request (Some bob) NoPage) ''alice'' =
             Inr (Render ''blog/profile.html'' (ProfileCtx alice pg))
        \<and> mset (paginator_object_list pg) = {#(sample_post 6 50 True (Some 1), 1)#})"
proof -
  have h: "get_object_or_404 (filter (\<lambda>u. username u = ''alice'') (users sample_db)) = Inr alice"
    by (simp add: sample_simps)
  from profile_shows_all_to_owner_only [OF h, of 200 "get_request (Some alice) NoPage"]
  obtain pg where a: "profile sample_db 200 (get_request (Some alice) NoPage) ''alice'' =
             Inr (Render ''blog/profile.html'' (ProfileCtx alice pg))"
     "mset (paginator_object_list pg) =
         mset (map (\<lambda>p. (p, comment_count sample_db p))
                (filter (\<lambda>p. author p = user_id alice
                           \<and> ((\<exists>u. req_user (get_request (Some alice) NoPage) = Some u \<and> user_id u = user_id alice)
                              \<or> (is_published p \<and> pub_date p \<le> 200
                                  \<and> category__is_published sample_db p))) (posts sample_db)))"
    by blast
  from profile_shows_all_to_owner_only [OF h, of 200 "get_request (Some bob) NoPage"]
  obtain pg' where b: "profile sample_db 200 (get_request (Some bob) NoPage) ''alice'' =
             Inr (Render ''blog/profile.html'' (ProfileCtx alice pg'))"
     "mset (paginator_object_list pg') =
         mset (map (\<lambda>p. (p, comment_count sample_db p))
                (filter (\<lambda>p. author p = user_id alice
                           \<and> ((\<exists>u. req_user (get_request (Some bob) NoPage) = Some u \<and> user_id u = user_id alice)
                              \<or> (is_published p \<and> pub_date p \<le> 200
                                  \<and> category__is_published sample_db p))) (posts sample_db)))"
    by blast
  have a': "mset (paginator_object_list pg) =
            {#(sample_post 5 100 False (Some 1), 0), (sample_post 6 50 True (Some 1), 1),
              (sample_post 7 10 True None, 0)#}"
    unfolding a(2) by (simp add: sample_simps comment_count_def category__is_published_def)
  have b': "mset (paginator_object_list pg') = {#(sample_post 6 50 True (Some 1), 1)#}"
    unfolding b(2) by (simp add: sample_simps comment_count_def category__is_published_def)
  show ?thesis using h a(1) a' b(1) b' by blast
qed
subsection \<open>Adding a comment\<close>

text \<open>
  C6: for an authenticated user and an existing post, \<open>add_comment\<close> answers with the
  redirect to the detail view of the post whether or not the form validates; a valid form
  appends one comment with a fresh key, written by the requesting user on that post, and
  an invalid form leaves the store as it was, with no page rendered.
\<close>

theorem add_comment_always_redirects:
  assumes "req_user request = Some u"
    and "get_object_or_404 (filter (\<lambda>q. post_id q = pid) (posts d)) = Inr p"
  shows "fst (add_comment d now request pid) = Inr (Redirect (PostDetailView pid))
     \<and> (case comment_form request of
          Some txt \<Rightarrow>
            (\<exists>c. snd (add_comment d now request pid) = d\<lparr>comments := comments d @ [c]\<rparr>
               \<and> comment_author c = user_id u \<and> comment_post c = post_id p
               \<and> comment_text c = txt \<and> comment_id c \<notin> set (map comment_id (comments d)))
        | None \<Rightarrow> snd (add_comment d now request pid) = d)"
proof (cases "comment_form request")
  case None
  then show ?thesis using assms by (simp add: add_comment_def)
next
  case (Some body)
  let ?c = "\<lparr>comment_id = next_id (map comment_id (comments d)), comment_post = post_id p,
             comment_author = user_id u, created_at = now, comment_text = body\<rparr>"
  have res: "add_comment d now request pid =
          (Inr (Redirect (PostDetailView pid)), d\<lparr>comments := comments d @ [?c]\<rparr>)"
    using assms Some by (simp add: add_comment_def)
  have "comment_id ?c \<notin> set (map comment_id (comments d))"
    using next_id_fresh [of "map comment_id (comments d)"] by simp
  then have "\<exists>c. snd (add_comment d now request pid) = d\<lparr>comments := comments d @ [c]\<rparr>
               \<and> comment_author c = user_id u \<and> comment_post c = post_id p
               \<and> comment_text c = body \<and> comment_id c \<notin> set (map comment_id (comments d))"
    unfolding res by (intro exI [of _ ?c]) simp
  then show ?thesis using Some res by simp
qed
theorem add_comment_always_redirects_witness:
  "req_user (post_request (Some bob) None (Some ''nice'')) = Some bob
   \<and> get_object_or_404 (filter (\<lambda>q. post_id q = 6) (posts sample_db)) =
       Inr (sample_post 6 50 True (Some 1))
   \<and> fst (add_comment sample_db 300 (post_request (Some bob) None (Some ''nice'')) 6) =
       Inr (Redirect (PostDetailView 6))
   \<and> (\<exists>c. snd (add_comment sample_db 300 (post_request (Some bob) None (Some ''nice'')) 6) =
            sample_db\<lparr>comments := comments sample_db @ [c]\<rparr>
          \<and> comment_author c = 2 \<and> comment_post c = 6 \<and> comment_text c = ''nice'')
   \<and> fst (add_comment sample_db 300 (post_request (Some bob) None None) 6) =
       Inr (Redirect (PostDetailView 6))
   \<and> snd (add_comment sample_db 300 (post_request (Some bob) None None) 6) = sample_db"
proof -
  let ?v = "post_request (Some bob) None (Some ''nice'')"
  let ?i = "post_request (Some bob) None None"
  have h1: "req_user ?v = Some bob" and h1': "req_user ?i = Some bob"
    by (simp_all add: post_request_def)
  have h2: "get_object_or_404 (filter (\<lambda>q. post_id q = 6) (posts sample_db)) =
       Inr (sample_post 6 50 True (Some 1))"
    by (simp add: sample_simps)
  have fv: "comment_form ?v = Some ''nice''" and fi: "comment_form ?i = None"
    by (simp_all add: post_request_def)
  note v = add_comment_always_redirects [OF h1 h2, where now = 300]
  note i = add_comment_always_redirects [OF h1' h2, where now = 300]
  from v obtain c where c:
    "snd (add_comment sample_db 300 ?v 6) = sample_db\<lparr>comments := comments sample_db @ [c]\<rparr>"
    "comment_author c = user_id bob" "comment_post c = post_id (sample_post 6 50 True (Some 1))"
    "comment_text c = ''nice''"
    unfolding fv by auto
  have "comment_author c = 2" "comment_post c = 6" using c(2,3) by (simp_all add: sample_simps)
  moreover have "snd (add_comment sample_db 300 ?i 6) = sample_db"
    using i unfolding fi by simp
  ultimately show ?thesis using h1 h2 v i c(1,4) by blast
qed
subsection \<open>The posts of a category\<close>

subsection \<open>The comment count after adding comments\<close>

lemma add_comment_valid:
  assumes "req_user r = Some u" "comment_form r = Some body"
    and "get_object_or_404 (filter (\<lambda>q. post_id q = pid) (posts d)) = Inr p"
  shows "\<exists>c. snd (add_comment d now r pid) = d\<lparr>comments := comments d @ [c]\<rparr>
            \<and> comment_post c = pid"
proof -
  from assms(3) have "filter (\<lambda>q. post_id q = pid) (posts d) = [p]"
    by (simp add: get_object_or_404_Inr)
  then have "p \<in> set (filter (\<lambda>q. post_id q = pid) (posts d))" by simp
  then have pid: "post_id p = pid" by simp
  let ?c = "\<lparr>comment_id = next_id (map comment_id (comments d)), comment_post = post_id p,
             comment_author = user_id u, created_at = now, comment_text = body\<rparr>"
  have "snd (add_comment d now r pid) = d\<lparr>comments := comments d @ [?c]\<rparr>"
    using assms by (simp add: add_comment_def)
  then show ?thesis using pid by (intro exI [of _ ?c]) simp
qed
lemma comment_count_add_comments:
  assumes "get_object_or_404 (filter (\<lambda>q. post_id q = pid) (posts d)) = Inr p"
    and "\<forall>(now, r) \<in> set rs. req_user r \<noteq> None \<and> comment_form r \<noteq> None"
    and "post_id q = pid"
  shows "comment_count (add_comments d rs pid) q = comment_count d q + length rs"
  using assms
proof (induction rs arbitrary: d)
  case Nil
  then show ?case by simp
next
  case (Cons x rs)
  obtain now r where x: "x = (now, r)" by (cases x)
  from Cons.prems(2) x obtain u body where ur: "req_user r = Some u" "comment_form r = Some body"
    by auto
  from add_comment_valid [OF ur Cons.prems(1)] obtain c where
    c: "snd (add_comment d now r pid) = d\<lparr>comments := comments d @ [c]\<rparr>" "comment_post c = pid"
    by blast
  let ?d' = "d\<lparr>comments := comments d @ [c]\<rparr>"
  have "get_object_or_404 (filter (\<lambda>q. post_id q = pid) (posts ?d')) = Inr p"
    using Cons.prems(1) by simp
  moreover have "\<forall>(now, r) \<in> set rs. req_user r \<noteq> None \<and> comment_form r \<noteq> None"
    using Cons.prems(2) by simp
  ultimately have "comment_count (add_comments ?d' rs pid) q = comment_count ?d' q + length rs"
    using Cons.IH Cons.prems(3) by blast
  moreover have "comment_count ?d' q = comment_count d q + 1"
    using c(2) Cons.prems(3) by (simp add: comment_count_def)
  ultimately show ?case using x c(1) by simp
qed
text \<open>
  C8: after a run of N add-comment requests on an existing post, each by an authenticated
  user with a valid form, the number of comments of the post, and the \<open>comment_count\<close> of
  every entry for that post in the result of \<open>get_annotated_posts\<close>, is the number it had
  before plus N; for a post that had no comments it is N.
\<close>

theorem comment_count_after_n_comments:
  assumes "get_object_or_404 (filter (\<lambda>q. post_id q = pid) (posts d)) = Inr p"
    and "\<forall>(now, r) \<in> set rs. req_user r \<noteq> None \<and> comment_form r \<noteq> None"
  shows "comment_count (add_comments d rs pid) p = comment_count d p + length rs
     \<and> (\<forall>a \<in> set (get_annotated_posts (add_comments d rs pid) t ps show_all).
           post_id (fst a) = pid \<longrightarrow> snd a = comment_count d p + length rs)
     \<and> (comment_count d p = 0 \<longrightarrow>
          (\<forall>a \<in> set (get_annotated_posts (add_comments d rs pid) t ps show_all).
             post_id (fst a) = pid \<longrightarrow> snd a = length rs))"
proof -
  from assms(1) have "filter (\<lambda>q. post_id q = pid) (posts d) = [p]"
    by (simp add: get_object_or_404_Inr)
  then have "p \<in> set (filter (\<lambda>q. post_id q = pid) (posts d))" by simp
  then have pid: "post_id p = pid" by simp
  have same: "post_id q = pid \<Longrightarrow> comment_count d q = comment_count d p" for q
    using pid by (simp add: comment_count_def)
  have 1: "comment_count (add_comments d rs pid) p = comment_count d p + length rs"
    using comment_count_add_comments [OF assms pid] .
  have 2: "snd a = comment_count d p + length rs"
    if "a \<in> set (get_annotated_posts (add_comments d rs pid) t ps show_all)"
      and "post_id (fst a) = pid" for a
    using get_annotated_posts_entries [OF that(1)]
      comment_count_add_comments [OF assms that(2)] same [OF that(2)] by simp
  show ?thesis using 1 2 by auto
qed
theorem comment_count_after_n_comments_witness:
  "comment_count sample_db (sample_post 5 100 False (Some 1)) = 0
   \<and> length two_comments = 2
   \<and> comment_count (add_comments sample_db two_comments 5) (sample_post 5 100 False (Some 1)) = 2
   \<and> get_annotated_posts (add_comments sample_db two_comments 5) 400
        [sample_post 5 100 False (Some 1)] True = [(sample_post 5 100 False (Some 1), 2)]"
proof -
  let ?p = "sample_post 5 100 False (Some 1)"
  have h1: "get_object_or_404 (filter (\<lambda>q. post_id q = 5) (posts sample_db)) = Inr ?p"
    by (simp add: sample_simps)
  have h2: "\<forall>(now, r) \<in> set two_comments. req_user r \<noteq> None \<and> comment_form r \<noteq> None"
    by (simp add: two_comments_def post_request_def)
  have z: "comment_count sample_db ?p = 0"
    by (simp add: comment_count_def sample_simps)
  have l: "length two_comments = 2" by (simp add: two_comments_def)
  from comment_count_after_n_comments [OF h1 h2]
  have c: "comment_count (add_comments sample_db two_comments 5) ?p = 2"
    unfolding z l by simp
  have "get_annotated_posts (add_comments sample_db two_comments 5) 400 [?p] True =
          [(?p, comment_count (add_comments sample_db two_comments 5) ?p)]"
    by (simp add: get_annotated_posts_def order_by_pub_date_desc_def)
  then show ?thesis using z l c by simp
qed
subsection \<open>Creating a post\<close>

text \<open>
  C9: for an authenticated user who is a row of the user table, a POST to \<open>create_post\<close>
  with a valid form appends one post with a fresh key whose author is the requesting user
  and whose publication fields are those of the form, and redirects to the user's
  profile; the profile of that user, requested by the same user on the new store, lists
  the post, whatever its publication state and date.
\<close>

theorem create_post_sets_author_and_lists:
  assumes "req_user request = Some u"
    and "req_method request = POST"
    and "post_form request = Some f"
    and "get_object_or_404 (filter (\<lambda>x. username x = username u) (users d)) = Inr u"
    and "req_user request' = Some u"
  shows "\<exists>p pg. create_post d request =
                  (Inr (Redirect (ProfileView (username u))), d\<lparr>posts := posts d @ [p]\<rparr>)
           \<and> author p = user_id u
           \<and> post_id p \<notin> set (map post_id (posts d))
           \<and> pub_date p = f_pub_date f \<and> is_published p = f_is_published f
           \<and> category p = f_category f
           \<and> profile (snd (create_post d request)) now request' (username u) =
               Inr (Render ''blog/profile.html'' (ProfileCtx u pg))
           \<and> p \<in> fst ` set (paginator_object_list pg)"
proof -
  let ?p = "new_post (next_id (map post_id (posts d))) (user_id u) f"
  let ?d' = "d\<lparr>posts := posts d @ [?p]\<rparr>"
  have cr: "create_post d request = (Inr (Redirect (ProfileView (username u))), ?d')"
    using assms(1-3) by (simp add: create_post_def Let_def)
  have fresh: "post_id ?p \<notin> set (map post_id (posts d))"
    using next_id_fresh [of "map post_id (posts d)"] by (simp add: new_post_def)
  have usr: "get_object_or_404 (filter (\<lambda>x. username x = username u) (users ?d')) = Inr u"
    using assms(4) by simp
  let ?lst = "get_annotated_posts ?d' now (filter (\<lambda>p. author p = user_id u) (posts ?d')) True"
  obtain pg where pg: "get_paginator request' ?lst 10 = Inr pg" "paginator_object_list pg = ?lst"
    using get_paginator_total [of 10 request' ?lst] by auto
  have pr: "profile ?d' now request' (username u) =
              Inr (Render ''blog/profile.html'' (ProfileCtx u pg))"
    using usr pg(1) assms(5) by (simp add: profile_def Let_def)
  have "(?p, comment_count ?d' ?p) \<in># mset ?lst"
    unfolding mset_get_annotated_posts by (simp add: new_post_def)
  then have "(?p, comment_count ?d' ?p) \<in> set (paginator_object_list pg)"
    using pg(2) by simp
  then have mem: "?p \<in> fst ` set (paginator_object_list pg)" by force
  show ?thesis
    apply (rule exI [of _ ?p])
    apply (rule exI [of _ pg])
    using cr fresh pr mem by (simp add: new_post_def)
qed
theorem create_post_sets_author_and_lists_witness:
  "\<exists>p pg. create_post sample_db (post_request (Some alice) (Some sample_fields) None) =
             (Inr (Redirect (ProfileView ''alice'')), sample_db\<lparr>posts := posts sample_db @ [p]\<rparr>)
      \<and> author p = 1 \<and> \<not> is_published p \<and> pub_date p = 1000
      \<and> profile (snd (create_post sample_db (post_request (Some alice) (Some sample_fields) None)))
           200 (get_request (Some alice) NoPage) ''alice'' =
           Inr (Render ''blog/profile.html'' (ProfileCtx alice pg))
      \<and> p \<in> fst ` set (paginator_object_list pg)"
proof -
  let ?rq = "post_request (Some alice) (Some sample_fields) None"
  let ?rq' = "get_request (Some alice) NoPage"
  have h1: "req_user ?rq = Some alice" and h2: "req_method ?rq = POST"
    and h3: "post_form ?rq = Some sample_fields"
    by (simp_all add: post_request_def)
  have h4: "get_object_or_404 (filter (\<lambda>x. username x = username alice) (users sample_db)) =
              Inr alice"
    by (simp add: sample_simps)
  have h5: "req_user ?rq' = Some alice" by (simp add: get_request_def)
  from create_post_sets_author_and_lists [OF h1 h2 h3 h4 h5, of 200]
  obtain p pg where r:
    "create_post sample_db ?rq =
       (Inr (Redirect (ProfileView (username alice))), sample_db\<lparr>posts := posts sample_db @ [p]\<rparr>)"
    "author p = user_id alice" "pub_date p = f_pub_date sample_fields"
    "is_published p = f_is_published sample_fields"
    "profile (snd (create_post sample_db ?rq)) 200 ?rq' (username alice) =
       Inr (Render ''blog/profile.html'' (ProfileCtx alice pg))"
    "p \<in> fst ` set (paginator_object_list pg)"
    by blast
  have n: "username alice = ''alice''" "user_id alice = 1" by (simp_all add: alice_def)
  have f: "f_pub_date sample_fields = 1000" "\<not> f_is_published sample_fields"
    by (simp_all add: sample_fields_def)
  show ?thesis
    apply (rule exI [of _ p])
    apply (rule exI [of _ pg])
    using r f unfolding n by simp
qed
subsection \<open>Editing and deleting a comment\<close>

text \<open>
  C10: \<open>edit_comment\<close> and \<open>delete_comment\<close> find the comment by \<open>comment_id\<close> alone and never
  compare \<open>post_id\<close> with the post of the comment: for an authenticated user and an existing
  comment, the store they return is the same for every \<open>post_id\<close>; a user who is not the
  author of the comment is redirected to the detail view of the \<open>post_id\<close> of the URL with
  the store unchanged; the author's POST deletes the comment, or with a valid form
  rewrites its text, and redirects to the detail view of the \<open>post_id\<close> of the URL; and no
  redirect of either view goes anywhere else.
\<close>

theorem comment_views_ignore_post_id:
  assumes "req_user request = Some u"
    and "get_object_or_404 (filter (\<lambda>c. comment_id c = cid) (comments d)) = Inr cmt"
  shows "snd (edit_comment d request pid cid) = snd (edit_comment d request pid' cid)
     \<and> snd (delete_comment d request pid cid) = snd (delete_comment d request pid' cid)
     \<and> (user_id u \<noteq> comment_author cmt \<longrightarrow>
          edit_comment d request pid cid = (Inr (Redirect (PostDetailView pid)), d)
        \<and> delete_comment d request pid cid = (Inr (Redirect (PostDetailView pid)), d))
     \<and> (user_id u = comment_author cmt \<and> req_method request = POST \<longrightarrow>
          delete_comment d request pid cid =
            (Inr (Redirect (PostDetailView pid)),
             d\<lparr>comments := filter (\<lambda>c. comment_id c \<noteq> cid) (comments d)\<rparr>)
        \<and> (\<forall>body. comment_form request = Some body \<longrightarrow>
              edit_comment d request pid cid =
                (Inr (Redirect (PostDetailView pid)),
                 d\<lparr>comments := map (\<lambda>c. if comment_id c = cid
                                          then cmt\<lparr>comment_text := body\<rparr> else c)
                                   (comments d)\<rparr>)))
     \<and> (\<forall>t. fst (edit_comment d request pid cid) = Inr (Redirect t) \<longrightarrow> t = PostDetailView pid)
     \<and> (\<forall>t. fst (delete_comment d request pid cid) = Inr (Redirect t)
            \<longrightarrow> t = PostDetailView pid)"
proof -
  from assms(2) have "filter (\<lambda>c. comment_id c = cid) (comments d) = [cmt]"
    by (simp add: get_object_or_404_Inr)
  then have "cmt \<in> set (filter (\<lambda>c. comment_id c = cid) (comments d))" by simp
  then have cid: "comment_id cmt = cid" by simp
  show ?thesis using assms cid
    by (auto simp: edit_comment_def delete_comment_def split: option.splits)
qed
theorem comment_views_ignore_post_id_witness:
  "comment_post \<lparr>comment_id = 1, comment_post = 6, comment_author = 2, created_at = 60,
                 comment_text = ''hi''\<rparr> \<noteq> 5
   \<and> delete_comment sample_db (post_request (Some bob) None (Some ''edited'')) 5 1 =
       (Inr (Redirect (PostDetailView 5)),
        sample_db\<lparr>comments := filter (\<lambda>c. comment_id c \<noteq> 1) (comments sample_db)\<rparr>)
   \<and> filter (\<lambda>c. comment_id c \<noteq> 1) (comments sample_db) = []
   \<and> edit_comment sample_db (post_request (Some bob) None (Some ''edited'')) 5 1 =
       (Inr (Redirect (PostDetailView 5)),
        sample_db\<lparr>comments := [\<lparr>comment_id = 1, comment_post = 6, comment_author = 2,
                                  created_at = 60, comment_text = ''edited''\<rparr>]\<rparr>)
   \<and> edit_comment sample_db (post_request (Some alice) None (Some ''edited'')) 7 1 =
       (Inr (Redirect (PostDetailView 7)), sample_db)"
proof -
  let ?c = "\<lparr>comment_id = 1, comment_post = 6, comment_author = 2, created_at = 60,
             comment_text = ''hi''\<rparr>"
  let ?rb = "post_request (Some bob) None (Some ''edited'')"
  let ?ra = "post_request (Some alice) None (Some ''edited'')"
  have ub: "req_user ?rb = Some bob" and ua: "req_user ?ra = Some alice"
    by (simp_all add: post_request_def)
  have g: "get_object_or_404 (filter (\<lambda>c. comment_id c = 1) (comments sample_db)) = Inr ?c"
    by (simp add: sample_simps)
  have ownb: "user_id bob = comment_author ?c \<and> req_method ?rb = POST"
    by (simp add: sample_simps)
  have owna: "user_id alice \<noteq> comment_author ?c"
    by (simp add: sample_simps)
  have fb: "comment_form ?rb = Some ''edited''" by (simp add: post_request_def)
  note tb = comment_views_ignore_post_id [OF ub g, where pid = 5 and pid' = 5]
  note ta = comment_views_ignore_post_id [OF ua g, where pid = 7 and pid' = 7]
  from tb ownb have d: "delete_comment sample_db ?rb 5 1 =
       (Inr (Redirect (PostDetailView 5)),
        sample_db\<lparr>comments := filter (\<lambda>c. comment_id c \<noteq> 1) (comments sample_db)\<rparr>)"
    by blast
  from tb ownb fb have e: "edit_comment sample_db ?rb 5 1 =
       (Inr (Redirect (PostDetailView 5)),
        sample_db\<lparr>comments := map (\<lambda>c. if comment_id c = 1
                                          then ?c\<lparr>comment_text := ''edited''\<rparr> else c)
                                   (comments sample_db)\<rparr>)"
    by blast
  from ta owna have a: "edit_comment sample_db ?ra 7 1 = (Inr (Redirect (PostDetailView 7)), sample_db)"
    by blast
  have m: "map (\<lambda>c. if comment_id c = 1 then ?c\<lparr>comment_text := ''edited''\<rparr> else c)
       (comments sample_db) =
     [\<lparr>comment_id = 1, comment_post = 6, comment_author = 2, created_at = 60,
       comment_text = ''edited''\<rparr>]"
    by (simp add: sample_simps)
  have f: "filter (\<lambda>c. comment_id c \<noteq> 1) (comments sample_db) = []"
    by (simp add: sample_simps)
  have n: "comment_post ?c \<noteq> 5" by simp
  from e have e': "edit_comment sample_db ?rb 5 1 =
       (Inr (Redirect (PostDetailView 5)),
        sample_db\<lparr>comments := [\<lparr>comment_id = 1, comment_post = 6, comment_author = 2,
                                  created_at = 60, comment_text = ''edited''\<rparr>]\<rparr>)"
    unfolding m .
  from n d f e' a show ?thesis by (intro conjI)
qed

end
